theory Spec2Isabelle
  imports Complex_Main
begin

section \<open>The SafePredict demo notebook\<close>

text \<open>
  The repository is one notebook, \<^verbatim>\<open>SafePredictDemo.ipynb\<close>. Its integer-valued cells
  are embedded here: the label remap (cell 3), the change-point block that shuffles the
  class labels of the later segments (cell 5) and the error-rate loop (cell 9).
  Python integers are \<^typ>\<open>int\<close>; a Python or numpy sequence is a list; an exception is
  the left summand of a result.
\<close>

subsection \<open>Python sequences\<close>

text \<open>
  The exceptions of the cells. \<open>ArrayTooLarge\<close> stands for the exception numpy raises
  when it cannot create an array of the length asked for.
\<close>

datatype py_error = IndexError | ValueError | ArrayTooLarge

text \<open>
  \<^verbatim>\<open>xs[k]\<close> on a Python list or a one-dimensional numpy array: an index from \<open>-len\<close> up to
  \<open>len - 1\<close> is accepted, a negative one counting from the end; any other raises
  \<^verbatim>\<open>IndexError\<close>.
\<close>

definition py_index :: "'a list \<Rightarrow> int \<Rightarrow> py_error + 'a" where
  "py_index xs k =
     (let n = int (length xs) in
      if 0 \<le> k \<and> k < n then Inr (xs ! nat k)
      else if - n \<le> k \<and> k < 0 then Inr (xs ! nat (k + n))
      else Inl IndexError)"

text \<open>\<^verbatim>\<open>xs[a:b]\<close>: both ends are clamped to the sequence, negative ends count from the end.\<close>

definition slice_end :: "int \<Rightarrow> int \<Rightarrow> nat" where
  "slice_end n k = nat (if k < 0 then max (k + n) 0 else min k n)"

definition py_slice :: "'a list \<Rightarrow> int \<Rightarrow> int \<Rightarrow> 'a list" where
  "py_slice xs a b =
     (let n = int (length xs) in
      take (slice_end n b - slice_end n a) (drop (slice_end n a) xs))"

text \<open>\<^verbatim>\<open>range(a, b)\<close> on Python integers.\<close>

definition py_range :: "int \<Rightarrow> int \<Rightarrow> int list" where
  "py_range a b = [a..b - 1]"

text \<open>The builtins \<^verbatim>\<open>min\<close> and \<^verbatim>\<open>max\<close>: \<^verbatim>\<open>ValueError\<close> on an empty sequence.\<close>

definition py_min :: "int list \<Rightarrow> py_error + int" where
  "py_min xs = (case xs of [] \<Rightarrow> Inl ValueError | x # rest \<Rightarrow> Inr (fold min rest x))"

definition py_max :: "int list \<Rightarrow> py_error + int" where
  "py_max xs = (case xs of [] \<Rightarrow> Inl ValueError | x # rest \<Rightarrow> Inr (fold max rest x))"

text \<open>A \<^verbatim>\<open>for\<close> loop over a sequence of indices; an exception in the body ends it.\<close>

fun for_each :: "('s \<Rightarrow> 'i \<Rightarrow> py_error + 's) \<Rightarrow> 'i list \<Rightarrow> 's \<Rightarrow> py_error + 's" where
  "for_each body [] s = Inr s"
| "for_each body (i # rest) s =
     (case body s i of Inl e \<Rightarrow> Inl e | Inr s' \<Rightarrow> for_each body rest s')"

subsection \<open>Cell 3: the label remap\<close>





text \<open>
  The abstention sentinel: cell 9 takes \<^verbatim>\<open>predictions[i] != (-1)\<close> for a round in which
  a label was emitted.
\<close>

definition abstain_marker :: int where
  "abstain_marker = - 1"


subsection \<open>Cell 5: the change-point block\<close>

text \<open>
  \<^verbatim>\<open>
  T = holdout_y.size
  numCP = 0
  if (numCP != 0):
      for i in range(1, numCP + 1):
          permuted_labels = np.random.permutation(np.arange(min(holdout_y[a:b]), max(holdout_y[a:b])+1))
          for t in range(a, b):
              holdout_y[t] = permuted_labels[holdout_y[t]]
  \<close>
  with \<open>a = i*(T//(numCP+1))\<close> and \<open>b = (i+1)*(T//(numCP+1))\<close>, which are Python
  integers; the divisor \<open>numCP + 1\<close> is at least 2 whenever the loop body runs. The
  entries of \<open>holdout_y\<close> are numpy's 64-bit integers (\<^verbatim>\<open>astype(int)\<close> in cell 3), and so
  are \<^verbatim>\<open>min(...)\<close>, \<^verbatim>\<open>max(...)\<close> and \<^verbatim>\<open>max(...)+1\<close>, which wraps around at \<open>2^63\<close>.
  The block is a function of \<open>numCP\<close> and of the label array, with two parameters for
  what the machine decides: \<open>rnd\<close> gives the outcome of the \<open>i\<close>-th call of
  \<^verbatim>\<open>np.random.permutation\<close> on its argument, and \<open>cap\<close> is the number of entries of the
  largest array that numpy can create; for a longer one it raises \<^verbatim>\<open>MemoryError\<close> or, past
  the address space, \<^verbatim>\<open>ValueError\<close>, which the model renders as \<open>ArrayTooLarge\<close>.
\<close>

text \<open>The value of a 64-bit signed integer operation: the result modulo \<open>2^64\<close>.\<close>

definition int64 :: "int \<Rightarrow> int" where
  "int64 x = (x + 2 ^ 63) mod 2 ^ 64 - 2 ^ 63"

text \<open>
  \<^verbatim>\<open>np.arange(start, stop)\<close> on 64-bit integers. numpy takes the length from the
  difference \<open>stop - start\<close> of the two scalars, itself a 64-bit value; a difference that
  is not positive gives the empty array. The entries are \<open>start, start + 1, \<dots>\<close>.
\<close>

definition np_arange :: "nat \<Rightarrow> int \<Rightarrow> int \<Rightarrow> py_error + int list" where
  "np_arange cap start stop =
     (let n = int64 (stop - start) in
      if n \<le> 0 then Inr []
      else if int cap < n then Inl ArrayTooLarge
      else Inr (map (\<lambda>k. int64 (start + k)) [0..n - 1]))"

definition segment_start :: "int \<Rightarrow> int \<Rightarrow> int \<Rightarrow> int" where
  "segment_start T numCP i = i * (T div (numCP + 1))"

definition segment_stop :: "int \<Rightarrow> int \<Rightarrow> int \<Rightarrow> int" where
  "segment_stop T numCP i = (i + 1) * (T div (numCP + 1))"

definition relabel :: "int list \<Rightarrow> int list \<Rightarrow> int \<Rightarrow> py_error + int list" where
  "relabel permuted_labels holdout_y t =
     (case py_index holdout_y t of
        Inl e \<Rightarrow> Inl e
      | Inr v \<Rightarrow>
          (case py_index permuted_labels v of
             Inl e \<Rightarrow> Inl e
           | Inr w \<Rightarrow> Inr (holdout_y[nat t := w])))"

definition shuffle_segment ::
    "(int \<Rightarrow> int list \<Rightarrow> int list) \<Rightarrow> nat \<Rightarrow> int \<Rightarrow> int \<Rightarrow> int list \<Rightarrow> int \<Rightarrow> py_error + int list" where
  "shuffle_segment rnd cap T numCP holdout_y i =
     (let a = segment_start T numCP i; b = segment_stop T numCP i in
      case py_min (py_slice holdout_y a b) of
        Inl e \<Rightarrow> Inl e
      | Inr lo \<Rightarrow>
          (case py_max (py_slice holdout_y a b) of
             Inl e \<Rightarrow> Inl e
           | Inr hi \<Rightarrow>
               (case np_arange cap lo (int64 (hi + 1)) of
                  Inl e \<Rightarrow> Inl e
                | Inr labels \<Rightarrow>
                    for_each (relabel (rnd i labels)) (py_range a b) holdout_y)))"

definition change_point_rounds :: "int \<Rightarrow> int list" where
  "change_point_rounds numCP = (if numCP \<noteq> 0 then py_range 1 (numCP + 1) else [])"

definition change_points ::
    "(int \<Rightarrow> int list \<Rightarrow> int list) \<Rightarrow> nat \<Rightarrow> int \<Rightarrow> int list \<Rightarrow> py_error + int list" where
  "change_points rnd cap numCP holdout_y =
     (let T = int (length holdout_y) in
      for_each (shuffle_segment rnd cap T numCP) (change_point_rounds numCP) holdout_y)"

text \<open>One possible outcome of the generator, used for concrete runs: the reversed array.\<close>

definition reversing :: "int \<Rightarrow> int list \<Rightarrow> int list" where
  "reversing i xs = rev xs"

subsection \<open>Cell 9: the error-rate loop\<close>

text \<open>
  \<^verbatim>\<open>
  errors = 0
  counter_sp = 0
  error_rates = []
  total_preds = len(predictions)
  for i in range(total_preds):
      if predictions[i] != (-1):
          if predictions[i] != y[i+tl]:
              errors = errors+1
      counter_sp = counter_sp + 1
      if counter_sp == 0:
          error_rates.append(0)
      else:
          error_rates.append(errors/counter_sp)
  \<close>
  The quotient of two Python integers is the float nearest to the rational
  \<open>errors/counter_sp\<close>; the model keeps the rational.
\<close>

record rate_state =
  errors :: int
  counter_sp :: int
  error_rates :: "rat list"

definition rate_init :: rate_state where
  "rate_init = \<lparr>errors = 0, counter_sp = 0, error_rates = []\<rparr>"

definition count_error :: "int list \<Rightarrow> int list \<Rightarrow> int \<Rightarrow> int \<Rightarrow> int \<Rightarrow> py_error + int" where
  "count_error predictions y tl' errs i =
     (case py_index predictions i of
        Inl e \<Rightarrow> Inl e
      | Inr p \<Rightarrow>
          if p \<noteq> - 1 then
            (case py_index y (i + tl') of
               Inl e \<Rightarrow> Inl e
             | Inr l \<Rightarrow> Inr (if p \<noteq> l then errs + 1 else errs))
          else Inr errs)"

definition rate_entry :: "int \<Rightarrow> int \<Rightarrow> rat" where
  "rate_entry errs c = (if c = 0 then 0 else of_int errs / of_int c)"

definition rate_step :: "int list \<Rightarrow> int list \<Rightarrow> int \<Rightarrow> rate_state \<Rightarrow> int \<Rightarrow> py_error + rate_state" where
  "rate_step predictions y tl' st i =
     (case count_error predictions y tl' (errors st) i of
        Inl e \<Rightarrow> Inl e
      | Inr errs \<Rightarrow>
          (let c = counter_sp st + 1 in
           Inr \<lparr>errors = errs, counter_sp = c,
                error_rates = error_rates st @ [rate_entry errs c]\<rparr>))"

text \<open>The state after the first \<open>n\<close> iterations, and the whole loop.\<close>

definition rate_prefix :: "int list \<Rightarrow> int list \<Rightarrow> int \<Rightarrow> nat \<Rightarrow> py_error + rate_state" where
  "rate_prefix predictions y tl' n =
     for_each (rate_step predictions y tl') (py_range 0 (int n)) rate_init"

definition error_rate_loop :: "int list \<Rightarrow> int list \<Rightarrow> int \<Rightarrow> py_error + rate_state" where
  "error_rate_loop predictions y tl' =
     (let total_preds = length predictions in rate_prefix predictions y tl' total_preds)"

text \<open>
  Round \<open>j\<close> is wrong when a label was emitted and differs from the true one; the
  wrong rounds among the first \<open>n\<close>.
\<close>

definition wrong_round :: "int list \<Rightarrow> int list \<Rightarrow> int \<Rightarrow> nat \<Rightarrow> bool" where
  "wrong_round predictions y tl' j =
     (predictions ! j \<noteq> - 1 \<and> predictions ! j \<noteq> y ! nat (int j + tl'))"

definition errors_before :: "int list \<Rightarrow> int list \<Rightarrow> int \<Rightarrow> nat \<Rightarrow> nat" where
  "errors_before predictions y tl' n = length (filter (wrong_round predictions y tl') [0..<n])"

text \<open>
  The rate in the words of the specification: among the rounds up to \<open>i\<close>, the wrong
  emitted labels over the emitted labels.
\<close>

definition spec_errors_upto :: "int list \<Rightarrow> int list \<Rightarrow> int \<Rightarrow> nat \<Rightarrow> nat" where
  "spec_errors_upto predictions y tl' i =
     length (filter (wrong_round predictions y tl') [0..<Suc i])"

definition spec_predicted_upto :: "int list \<Rightarrow> nat \<Rightarrow> nat" where
  "spec_predicted_upto predictions i =
     length (filter (\<lambda>j. predictions ! j \<noteq> - 1) [0..<Suc i])"

definition spec_error_rate :: "int list \<Rightarrow> int list \<Rightarrow> int \<Rightarrow> nat \<Rightarrow> rat" where
  "spec_error_rate predictions y tl' i =
     of_nat (spec_errors_upto predictions y tl' i) / of_nat (spec_predicted_upto predictions i)"

section \<open>The abstention controller\<close>

text \<open>
  Modelled from the spec: the class \<^verbatim>\<open>safePredict\<close> that the notebook imports from the
  module \<^verbatim>\<open>SafePredict\<close> is not among the sources; the notebook only constructs it
  (\<^verbatim>\<open>safePredict(target_error=epsilon)\<close>), seeds it (\<^verbatim>\<open>sp.fit\<close>) and queries it
  (\<^verbatim>\<open>sp.predict\<close>). The definitions of this section follow sections 3, 4.1, 6 and 7
  of the specification. What the specification leaves open is a parameter, gathered in
  the record \<open>design\<close>: the default base estimator, the convention for the first round
  index, the acceptance probability, the rule that recomputes the threshold, and the
  pseudo-random source. The target error rate is a rational.
\<close>

text \<open>Modelled from the spec: the error taxonomy of section 7.\<close>

datatype ctrl_error = ConfigurationError | NotSeededError | EstimatorError

text \<open>Modelled from the spec: the controller state \<open>S_t\<close> of section 3.\<close>

record ctrl_state =
  round_index :: nat
  predictions_made :: nat
  errors_made :: nat
  threshold :: rat

text \<open>
  Modelled from the spec: the base estimator contract of section 6, the capabilities
  \<open>fit\<close> and \<open>predict\<close>; \<open>est_predict\<close> gives \<open>None\<close> when the prediction fails.
\<close>

record ('x, 'm) estimator =
  est_fit :: "('x \<times> int) list \<Rightarrow> 'm"
  est_predict :: "'m \<Rightarrow> 'x \<Rightarrow> int option"

text \<open>
  Modelled from the spec: the option \<open>base_estimator_factory\<close> of section 6. What a
  caller supplies either produces a base estimator or is malformed, the second cause of
  \<open>ConfigurationError\<close> in section 7.
\<close>

datatype ('x, 'm) factory = Malformed | Produces "('x, 'm) estimator"

text \<open>
  Modelled from the spec: the state machine \<open>Unseeded \<rightarrow> Seeded\<close> of section 4.1; the
  seeded controller holds the fitted base estimator and the numeric state.
\<close>

datatype 'm phase = Unseeded | Seeded 'm ctrl_state

text \<open>
  Modelled from the spec: the controller instance, which owns the immutable target error
  rate, its base estimator, its state and the pseudo-random source injected at
  construction (section 9).
\<close>

record ('x, 'm, 'g) controller =
  target_error :: rat
  base_estimator :: "('x, 'm) estimator"
  phase :: "'m phase"
  random_source :: 'g

text \<open>
  Modelled from the spec: after \<open>seed\<close> with a batch of size \<open>k\<close> the round counter
  starts at \<open>k\<close> or at 0, "per chosen convention" (section 8).
\<close>

datatype round_convention = StartAtZero | StartAtBatchSize

definition first_round :: "round_convention \<Rightarrow> nat \<Rightarrow> nat" where
  "first_round cv k = (case cv of StartAtZero \<Rightarrow> 0 | StartAtBatchSize \<Rightarrow> k)"

text \<open>
  Modelled from the spec: the default base estimator of section 6 and the choices that
  section 9 leaves to the implementer.
\<close>

record ('x, 'm, 'g) design =
  default_estimator :: "('x, 'm) estimator"
  convention :: round_convention
  initial_threshold :: "rat \<Rightarrow> rat"
  acceptance_prob :: "rat \<Rightarrow> ctrl_state \<Rightarrow> rat"
  recompute_threshold :: "rat \<Rightarrow> ctrl_state \<Rightarrow> rat"
  draw_uniform :: "'g \<Rightarrow> rat \<times> 'g"

text \<open>
  Modelled from the spec: construction with the options \<open>target_error\<close> (required) and
  \<open>base_estimator_factory\<close> (optional) of section 6. It fails with \<open>ConfigurationError\<close>
  if the target is not in the open interval (0,1) or the factory is malformed
  (sections 4.1 and 7), and otherwise gives an unseeded controller that holds the
  estimator of the factory, or the default one if no factory is supplied, and the
  injected pseudo-random source.
\<close>

definition safePredict ::
    "('x, 'm, 'g) design \<Rightarrow> rat \<Rightarrow> ('x, 'm) factory option \<Rightarrow> 'g \<Rightarrow>
     ctrl_error + ('x, 'm, 'g) controller" where
  "safePredict D eps fac g =
     (if \<not> (0 < eps \<and> eps < 1) then Inl ConfigurationError
      else
        (case fac of
           None \<Rightarrow>
             Inr \<lparr>target_error = eps, base_estimator = default_estimator D,
                  phase = Unseeded, random_source = g\<rparr>
         | Some Malformed \<Rightarrow> Inl ConfigurationError
         | Some (Produces e) \<Rightarrow>
             Inr \<lparr>target_error = eps, base_estimator = e,
                  phase = Unseeded, random_source = g\<rparr>))"

text \<open>
  Modelled from the spec: \<open>seed\<close> on a non-empty batch (its first point and the others)
  fits the base estimator and sets the counts to their starting values.
\<close>

definition seed ::
    "('x, 'm, 'g) design \<Rightarrow> ('x, 'm, 'g) controller \<Rightarrow> ('x \<times> int) \<Rightarrow> ('x \<times> int) list \<Rightarrow>
     ('x, 'm, 'g) controller" where
  "seed D c b bs =
     c\<lparr>phase := Seeded (est_fit (base_estimator c) (b # bs))
          \<lparr>round_index = first_round (convention D) (length (b # bs)),
           predictions_made = 0, errors_made = 0,
           threshold = initial_threshold D (target_error c)\<rparr>\<rparr>"

text \<open>
  Modelled from the spec: the update of the counts once the true label is known; the
  round index advances in every round, the other two counts only in a predicted round.
\<close>

definition update_counts :: "bool \<Rightarrow> bool \<Rightarrow> ctrl_state \<Rightarrow> ctrl_state" where
  "update_counts predicted wrong s =
     s\<lparr>round_index := round_index s + 1,
       predictions_made := (if predicted then predictions_made s + 1 else predictions_made s),
       errors_made := (if predicted \<and> wrong then errors_made s + 1 else errors_made s)\<rparr>"

text \<open>
  Modelled from the spec: the randomized gate of \<open>decide\<close>; the round is predicted when
  the uniform draw is below the acceptance probability.
\<close>

definition predicts :: "('x, 'm, 'g) design \<Rightarrow> ('x, 'm, 'g) controller \<Rightarrow> ctrl_state \<Rightarrow> bool" where
  "predicts D c s =
     (fst (draw_uniform D (random_source c)) < acceptance_prob D (target_error c) s)"

text \<open>
  Modelled from the spec: \<open>decide\<close>. An error leaves the controller as it was (the
  caller keeps the one it passed).
\<close>

definition decide ::
    "('x, 'm, 'g) design \<Rightarrow> ('x, 'm, 'g) controller \<Rightarrow> 'x \<Rightarrow> int \<Rightarrow>
     ctrl_error + (int \<times> ('x, 'm, 'g) controller)" where
  "decide D c x y_true =
     (case phase c of
        Unseeded \<Rightarrow> Inl NotSeededError
      | Seeded m s \<Rightarrow>
          (case est_predict (base_estimator c) m x of
             None \<Rightarrow> Inl EstimatorError
           | Some y_hat \<Rightarrow>
               (let predicted = predicts D c s;
                    g = snd (draw_uniform D (random_source c));
                    s1 = update_counts predicted (y_hat \<noteq> y_true) s;
                    s2 = s1\<lparr>threshold := recompute_threshold D (target_error c) s1\<rparr>
                in Inr (if predicted then y_hat else abstain_marker,
                        c\<lparr>phase := Seeded m s2, random_source := g\<rparr>))))"

text \<open>
  Modelled from the spec: the stub of the concrete scenario of section 8, a base
  estimator that always returns label 1, as the default estimator of a controller that
  always predicts and keeps its threshold; and the controller constructed from it with
  the target 0.05 and no factory.
\<close>

definition stub_estimator :: "(unit, unit) estimator" where
  "stub_estimator = \<lparr>est_fit = (\<lambda>batch. ()), est_predict = (\<lambda>m x. Some 1)\<rparr>"

definition stub_design :: "(unit, unit, nat) design" where
  "stub_design =
     \<lparr>default_estimator = stub_estimator, convention = StartAtZero,
      initial_threshold = (\<lambda>eps. 1), acceptance_prob = (\<lambda>eps s. 1),
      recompute_threshold = (\<lambda>eps s. threshold s), draw_uniform = (\<lambda>g. (0, g + 1))\<rparr>"

definition demo_controller :: "(unit, unit, nat) controller" where
  "demo_controller =
     \<lparr>target_error = 1 / 20, base_estimator = stub_estimator, phase = Unseeded,
      random_source = 0\<rparr>"

section \<open>Properties of the notebook's cells\<close>

subsection \<open>Loops\<close>

lemma for_each_append:
  "for_each body (xs @ ys) s =
     (case for_each body xs s of Inl e \<Rightarrow> Inl e | Inr s' \<Rightarrow> for_each body ys s')"
  by (induction xs arbitrary: s) (auto split: sum.splits)

lemma py_range_snoc: "a \<le> b \<Longrightarrow> py_range a (b + 1) = py_range a b @ [b]"
  by (simp add: py_range_def upto_rec2)

subsection \<open>The label remap and the abstention sentinel\<close>

lemma decide_seeded:
  assumes "phase c = Seeded m s" and "est_predict (base_estimator c) m x = Some y_hat"
  shows "\<exists>c'. decide D c x y_true = Inr (if predicts D c s then y_hat else abstain_marker, c') \<and>
           (\<exists>s'. phase c' = Seeded m s' \<and> round_index s' = round_index s + 1)"
  using assms by (simp add: decide_def Let_def update_counts_def)



text \<open>
  The remap is what keeps the two apart: the label \<open>-1\<close> of the original label space,
  answered as it is in a predicted round, would be returned as the sentinel.
\<close>

lemma sentinel_collision:
  assumes "phase c = Seeded m s" and "est_predict (base_estimator c) m x = Some (- 1)"
      and "predicts D c s"
  shows "\<exists>c'. decide D c x y_true = Inr (abstain_marker, c')"
  using decide_seeded [OF assms(1,2), of D y_true] assms(3) by (auto simp: abstain_marker_def)

subsection \<open>The error-rate loop\<close>

lemma rate_prefix_0: "rate_prefix predictions y tl' 0 = Inr rate_init"
  by (simp add: rate_prefix_def py_range_def)

lemma rate_prefix_Suc:
  "rate_prefix predictions y tl' (Suc n) =
     (case rate_prefix predictions y tl' n of
        Inl e \<Rightarrow> Inl e
      | Inr s \<Rightarrow> rate_step predictions y tl' s (int n))"
proof -
  have "py_range 0 (int (Suc n)) = py_range 0 (int n) @ [int n]"
    using py_range_snoc [of 0 "int n"] by (simp add: add.commute)
  then show ?thesis
    by (simp add: rate_prefix_def for_each_append split: sum.splits)
qed

lemma count_error_in_range:
  assumes "n < length predictions" "0 \<le> tl'" "n + nat tl' < length y"
  shows "count_error predictions y tl' errs (int n) =
           Inr (if wrong_round predictions y tl' n then errs + 1 else errs)"
  using assms by (auto simp: count_error_def py_index_def wrong_round_def Let_def nat_add_distrib)

lemma rate_prefix_invariant:
  assumes "0 \<le> tl'" "length predictions + nat tl' \<le> length y" "n \<le> length predictions"
  shows "\<exists>s. rate_prefix predictions y tl' n = Inr s \<and> counter_sp s = int n \<and>
             errors s = int (errors_before predictions y tl' n) \<and>
             length (error_rates s) = n \<and>
             (\<forall>i<n. error_rates s ! i =
                of_nat (errors_before predictions y tl' (Suc i)) / of_nat (Suc i))"
  using assms(3)
proof (induction n)
  case 0
  then show ?case by (simp add: rate_prefix_0 rate_init_def errors_before_def)
next
  case (Suc n)
  then obtain s where s: "rate_prefix predictions y tl' n = Inr s" "counter_sp s = int n"
      "errors s = int (errors_before predictions y tl' n)" "length (error_rates s) = n"
      "\<forall>i<n. error_rates s ! i = of_nat (errors_before predictions y tl' (Suc i)) / of_nat (Suc i)"
    by auto
  have ce: "count_error predictions y tl' (errors s) (int n) =
          Inr (int (errors_before predictions y tl' (Suc n)))"
    using Suc.prems assms(1,2) s(3)
    by (simp add: count_error_in_range errors_before_def)
  let ?s' = "\<lparr>errors = int (errors_before predictions y tl' (Suc n)), counter_sp = int n + 1,
      error_rates = error_rates s @ [rate_entry (int (errors_before predictions y tl' (Suc n))) (int n + 1)]\<rparr>"
  have step: "rate_prefix predictions y tl' (Suc n) = Inr ?s'"
    by (simp add: rate_prefix_Suc s(1,2) rate_step_def ce Let_def)
  have entry: "rate_entry (int (errors_before predictions y tl' (Suc n))) (int n + 1)
        = of_nat (errors_before predictions y tl' (Suc n)) / of_nat (Suc n)"
    by (simp add: rate_entry_def add.commute)
  have "\<forall>i<Suc n. error_rates ?s' ! i = of_nat (errors_before predictions y tl' (Suc i)) / of_nat (Suc i)"
    using s(4,5) entry by (auto simp: nth_append less_Suc_eq)
  with step s(4) show ?case by simp
qed


lemma errors_before_Suc: "errors_before predictions y tl' (Suc i) = spec_errors_upto predictions y tl' i"
  by (simp add: errors_before_def spec_errors_upto_def)

lemmas cell9_defs = error_rate_loop_def rate_prefix_def py_range_def upto.simps rate_step_def
  count_error_def py_index_def rate_entry_def rate_init_def

text \<open>
  Claim C8. The loop over \<open>range(total_preds)\<close> runs to its end when \<open>y\<close> has an entry
  for every round (the notebook has \<open>len(predictions) = len(y) - tl\<close>). At every
  iteration \<open>i\<close> the counter tested and divided by is \<open>i + 1\<close>: it is not 0, so the
  branch \<open>counter_sp == 0\<close> is never taken, the entry appended is the quotient
  \<open>errors/counter_sp\<close> with a positive divisor, and after the loop \<open>error_rates\<close> has
  \<open>total_preds\<close> entries.
\<close>

theorem error_rate_loop_counter:
  assumes "0 \<le> tl'" and "length predictions + nat tl' \<le> length y"
  shows "\<exists>st. error_rate_loop predictions y tl' = Inr st \<and>
           length (error_rates st) = length predictions \<and>
           (\<forall>i<length predictions. \<exists>s s'.
              rate_prefix predictions y tl' i = Inr s \<and>
              rate_step predictions y tl' s (int i) = Inr s' \<and>
              counter_sp s' = int i + 1 \<and> counter_sp s' \<noteq> 0 \<and> 0 < counter_sp s' \<and>
              error_rates s' = error_rates s @ [of_int (errors s') / of_int (counter_sp s')])"
proof -
  obtain st where st: "rate_prefix predictions y tl' (length predictions) = Inr st"
      "length (error_rates st) = length predictions"
    using rate_prefix_invariant [OF assms order_refl] by auto
  have "\<exists>s s'. rate_prefix predictions y tl' i = Inr s \<and>
              rate_step predictions y tl' s (int i) = Inr s' \<and>
              counter_sp s' = int i + 1 \<and> counter_sp s' \<noteq> 0 \<and> 0 < counter_sp s' \<and>
              error_rates s' = error_rates s @ [of_int (errors s') / of_int (counter_sp s')]"
    if lt: "i < length predictions" for i
  proof -
    obtain s where s: "rate_prefix predictions y tl' i = Inr s" "counter_sp s = int i"
      using rate_prefix_invariant [OF assms less_imp_le [OF lt]] by auto
    obtain s' where s': "rate_prefix predictions y tl' (Suc i) = Inr s'"
      using rate_prefix_invariant [OF assms Suc_leI [OF lt]] by auto
    then have step: "rate_step predictions y tl' s (int i) = Inr s'"
      by (simp add: rate_prefix_Suc s(1))
    then have "counter_sp s' = int i + 1 \<and>
        error_rates s' = error_rates s @ [of_int (errors s') / of_int (counter_sp s')]"
      using s(2) by (auto simp: rate_step_def rate_entry_def Let_def split: sum.splits)
    with s(1) step show ?thesis by auto
  qed
  with st show ?thesis by (simp add: error_rate_loop_def)
qed

theorem error_rate_loop_counter_witness:
  "(0::int) \<le> 0 \<and> length [- 1, 0 :: int] + nat 0 \<le> length [1, 1 :: int] \<and>
   (\<exists>st. error_rate_loop [- 1, 0] [1, 1] 0 = Inr st \<and>
           length (error_rates st) = length [- 1, 0 :: int] \<and>
           (\<forall>i<length [- 1, 0 :: int]. \<exists>s s'.
              rate_prefix [- 1, 0] [1, 1] 0 i = Inr s \<and>
              rate_step [- 1, 0] [1, 1] 0 s (int i) = Inr s' \<and>
              counter_sp s' = int i + 1 \<and> counter_sp s' \<noteq> 0 \<and> 0 < counter_sp s' \<and>
              error_rates s' = error_rates s @ [of_int (errors s') / of_int (counter_sp s')]))"
proof -
  have h1: "(0::int) \<le> 0" by simp
  have h2: "length [- 1, 0 :: int] + nat 0 \<le> length [1, 1 :: int]" by simp
  show ?thesis using h1 h2 error_rate_loop_counter [OF h1 h2] by blast
qed

text \<open>
  Claim C2, as the specification words it: the rate tracked at round \<open>i\<close> is the number
  of wrong emitted labels up to \<open>i\<close> over the number of emitted labels up to \<open>i\<close>. The
  loop does not compute that: with an abstention in round 0 and a wrong label in round
  1 it records \<open>1/2\<close>, where the rate among emitted labels is \<open>1\<close>.
\<close>

theorem error_rate_per_prediction_counterexample:
  "error_rate_loop [- 1, 0] [1, 1] 0 = Inr \<lparr>errors = 1, counter_sp = 2, error_rates = [0, 1 / 2]\<rparr> \<and>
   spec_error_rate [- 1, 0] [1, 1] 0 1 = 1 \<and>
   spec_error_rate [- 1, 0] [1, 1] 0 1 \<noteq> [0, 1 / 2] ! 1"
proof -
  have a: "error_rate_loop [- 1, 0] [1, 1] 0 = Inr \<lparr>errors = 1, counter_sp = 2, error_rates = [0, 1 / 2]\<rparr>"
    by (simp add: cell9_defs)
  have b: "spec_error_rate [- 1, 0] [1, 1] 0 1 = 1"
    by (simp add: spec_error_rate_def spec_errors_upto_def spec_predicted_upto_def wrong_round_def upt_rec)
  show ?thesis using a b by simp
qed

text \<open>
  Claim C2, amended: the rate tracked at round \<open>i\<close> is the number of wrong emitted
  labels up to \<open>i\<close> over \<open>i + 1\<close>, the number of all rounds up to \<open>i\<close>, abstentions
  included. This is what the notebook announces: "of the total number of datapoints
  that SafePredict received, how many it predicted incorrectly".
\<close>

theorem error_rate_over_all_rounds:
  assumes "0 \<le> tl'" and "length predictions + nat tl' \<le> length y"
  shows "\<exists>st. error_rate_loop predictions y tl' = Inr st \<and>
           (\<forall>i<length predictions.
              error_rates st ! i = of_nat (spec_errors_upto predictions y tl' i) / of_nat (i + 1))"
  using rate_prefix_invariant [OF assms order_refl]
  by (auto simp: error_rate_loop_def errors_before_Suc)

theorem error_rate_over_all_rounds_witness:
  "(0::int) \<le> 0 \<and> length [- 1, 0 :: int] + nat 0 \<le> length [1, 1 :: int] \<and>
   (\<exists>st. error_rate_loop [- 1, 0] [1, 1] 0 = Inr st \<and>
      (\<forall>i<length [- 1, 0 :: int].
         error_rates st ! i = of_nat (spec_errors_upto [- 1, 0] [1, 1] 0 i) / of_nat (i + 1)))"
proof -
  have h1: "(0::int) \<le> 0" by simp
  have h2: "length [- 1, 0 :: int] + nat 0 \<le> length [1, 1 :: int]" by simp
  show ?thesis using h1 h2 error_rate_over_all_rounds [OF h1 h2] by blast
qed

subsection \<open>The change-point block\<close>

text \<open>
  Claim C10. With \<open>numCP = 0\<close> the block has no round to run and gives the label array
  back as it was, whatever the generator would draw.
\<close>

theorem no_change_points_no_change:
  "change_point_rounds 0 = [] \<and> change_points rnd cap 0 holdout_y = Inr holdout_y"
  by (simp add: change_points_def change_point_rounds_def)

theorem no_change_points_no_change_witness:
  "change_points reversing 10 0 [0, 1, 1, 0] = Inr [0, 1, 1, 0]"
  using no_change_points_no_change [of reversing 10 "[0, 1, 1, 0]"] by simp

lemma py_index_Inr_iff:
  "(\<exists>w. py_index xs k = Inr w) \<longleftrightarrow> - int (length xs) \<le> k \<and> k < int (length xs)"
  by (auto simp: py_index_def Let_def)

lemma py_index_Inl: "py_index xs k = Inl e \<Longrightarrow> e = IndexError"
  by (auto simp: py_index_def Let_def split: if_splits)

lemma py_index_nonneg: "0 \<le> k \<Longrightarrow> k < int (length xs) \<Longrightarrow> py_index xs k = Inr (xs ! nat k)"
  by (simp add: py_index_def)

lemma relabel_Inr:
  assumes "0 \<le> t" "t < int (length ys)" "py_index p (ys ! nat t) = Inr w"
  shows "relabel p ys t = Inr (ys[nat t := w])"
  using assms by (simp add: relabel_def py_index_nonneg)

lemma relabel_Inl:
  assumes "0 \<le> t" "t < int (length ys)" "\<not> (\<exists>w. py_index p (ys ! nat t) = Inr w)"
  shows "relabel p ys t = Inl IndexError"
proof -
  obtain e where "py_index p (ys ! nat t) = Inl e"
    using assms(3) by (cases "py_index p (ys ! nat t)") auto
  then show ?thesis
    using assms(1,2) py_index_Inl by (fastforce simp: relabel_def py_index_nonneg)
qed

lemma relabel_loop:
  assumes "distinct ts" "\<forall>t\<in>set ts. 0 \<le> t \<and> t < int (length ys)"
  shows "if \<forall>t\<in>set ts. \<exists>w. py_index p (ys ! nat t) = Inr w
         then \<exists>ys'. for_each (relabel p) ts ys = Inr ys'
         else for_each (relabel p) ts ys = Inl IndexError"
  using assms
proof (induction ts arbitrary: ys)
  case Nil
  then show ?case by simp
next
  case (Cons t rest)
  have t: "0 \<le> t" "t < int (length ys)" using Cons.prems(2) by auto
  show ?case
  proof (cases "\<exists>w. py_index p (ys ! nat t) = Inr w")
    case False
    then show ?thesis using relabel_Inl [OF t] by auto
  next
    case True
    then obtain w where w: "py_index p (ys ! nat t) = Inr w" by auto
    let ?ys1 = "ys[nat t := w]"
    have step: "relabel p ys t = Inr ?ys1" using relabel_Inr [OF t w] .
    have same: "?ys1 ! nat t' = ys ! nat t'" if "t' \<in> set rest" for t'
    proof -
      have "t' \<noteq> t" using Cons.prems(1) that by auto
      moreover have "0 \<le> t'" using Cons.prems(2) that by auto
      ultimately have "nat t' \<noteq> nat t" using t(1) by auto
      then show ?thesis by simp
    qed
    have "if \<forall>t\<in>set rest. \<exists>w. py_index p (?ys1 ! nat t) = Inr w
         then \<exists>ys'. for_each (relabel p) rest ?ys1 = Inr ys'
         else for_each (relabel p) rest ?ys1 = Inl IndexError"
      using Cons.prems by (intro Cons.IH) auto
    then show ?thesis using True step same by (auto split: if_splits)
  qed
qed



lemma segment_bounds:
  assumes "1 \<le> i" "i \<le> numCP" "0 \<le> T"
  shows "0 \<le> segment_start T numCP i \<and> segment_start T numCP i \<le> segment_stop T numCP i \<and>
         segment_stop T numCP i \<le> T"
proof -
  let ?w = "T div (numCP + 1)"
  have pos: "0 < numCP + 1" using assms by simp
  have w: "0 \<le> ?w" using assms(3) pos by (simp add: pos_imp_zdiv_nonneg_iff)
  have "(i + 1) * ?w \<le> (numCP + 1) * ?w"
    using assms(2) w by (intro mult_right_mono) auto
  moreover have "T = (numCP + 1) * ?w + T mod (numCP + 1)" by simp
  moreover have "0 \<le> T mod (numCP + 1)" using pos by simp
  ultimately have "(i + 1) * ?w \<le> T" by linarith
  moreover have "0 \<le> i * ?w" using assms(1) w by simp
  moreover have "i * ?w \<le> (i + 1) * ?w" using w by (simp add: distrib_right)
  ultimately show ?thesis by (simp add: segment_start_def segment_stop_def)
qed

lemma py_slice_nth:
  assumes "0 \<le> a" "a \<le> b" "b \<le> int (length ys)"
  shows "py_slice ys a b = map (\<lambda>t. ys ! nat t) (py_range a b)"
proof (rule nth_equalityI)
  show len: "length (py_slice ys a b) = length (map (\<lambda>t. ys ! nat t) (py_range a b))"
    using assms by (auto simp: py_slice_def slice_end_def py_range_def Let_def min_def)
  fix k assume "k < length (py_slice ys a b)"
  then have k: "int k < b - a" using len assms by (simp add: py_range_def)
  then show "py_slice ys a b ! k = map (\<lambda>t. ys ! nat t) (py_range a b) ! k"
    using assms by (simp add: py_slice_def slice_end_def py_range_def Let_def min_def nat_add_distrib)
qed


lemma py_min_Inr: "py_min xs = Inr lo \<Longrightarrow> xs \<noteq> [] \<and> lo = Min (set xs)"
proof (cases xs)
  case Nil
  assume "py_min xs = Inr lo"
  with Nil show ?thesis by (simp add: py_min_def)
next
  case (Cons x rest)
  assume "py_min xs = Inr lo"
  with Cons have "lo = fold min rest x" by (simp add: py_min_def)
  also have "\<dots> = Min (set (x # rest))" by (rule Min.set_eq_fold [symmetric])
  finally show ?thesis using Cons by simp
qed

lemma py_max_Inr: "py_max xs = Inr hi \<Longrightarrow> xs \<noteq> [] \<and> hi = Max (set xs)"
proof (cases xs)
  case Nil
  assume "py_max xs = Inr hi"
  with Nil show ?thesis by (simp add: py_max_def)
next
  case (Cons x rest)
  assume "py_max xs = Inr hi"
  with Cons have "hi = fold max rest x" by (simp add: py_max_def)
  also have "\<dots> = Max (set (x # rest))" by (rule Max.set_eq_fold [symmetric])
  finally show ?thesis using Cons by simp
qed

lemma label_indices_in_bounds:
  assumes "py_min seg = Inr lo" "py_max seg = Inr hi" "int (length p) = hi - lo + 1"
  shows "(\<forall>v\<in>set seg. \<exists>w. py_index p v = Inr w) \<longleftrightarrow> lo \<le> 0 \<and> - 1 \<le> hi"
proof -
  have ne: "seg \<noteq> []" and lo: "lo = Min (set seg)" and hi: "hi = Max (set seg)"
    using py_min_Inr [OF assms(1)] py_max_Inr [OF assms(2)] by auto
  have lo_in: "lo \<in> set seg" and hi_in: "hi \<in> set seg"
    using ne lo hi by (auto intro: Min_in Max_in)
  have range: "lo \<le> v \<and> v \<le> hi" if "v \<in> set seg" for v
    using that lo hi by auto
  note len = assms(3)
  show ?thesis
  proof
    assume all: "\<forall>v\<in>set seg. \<exists>w. py_index p v = Inr w"
    have "\<exists>w. py_index p hi = Inr w" using all hi_in by (rule bspec)
    then have "hi < int (length p)" by (simp add: py_index_Inr_iff)
    moreover have "\<exists>w. py_index p lo = Inr w" using all lo_in by (rule bspec)
    then have "- int (length p) \<le> lo" by (simp add: py_index_Inr_iff)
    ultimately have "hi < int (length p)" "- int (length p) \<le> lo" by simp_all
    then show "lo \<le> 0 \<and> - 1 \<le> hi" using len by linarith
  next
    assume b: "lo \<le> 0 \<and> - 1 \<le> hi"
    show "\<forall>v\<in>set seg. \<exists>w. py_index p v = Inr w"
    proof
      fix v assume "v \<in> set seg"
      then have "lo \<le> v \<and> v \<le> hi" by (rule range)
      then have "- int (length p) \<le> v \<and> v < int (length p)" using b len by linarith
      then show "\<exists>w. py_index p v = Inr w" by (simp add: py_index_Inr_iff)
    qed
  qed
qed



lemma label_offsets_nonneg:
  assumes "py_min seg = Inr lo" "py_max seg = Inr hi" "int (length p) = hi - lo + 1"
  shows "(\<forall>v\<in>set seg. 0 \<le> v \<and> v < int (length p)) \<longleftrightarrow> lo = 0"
proof -
  have ne: "seg \<noteq> []" and lo: "lo = Min (set seg)" and hi: "hi = Max (set seg)"
    using py_min_Inr [OF assms(1)] py_max_Inr [OF assms(2)] by auto
  have lo_in: "lo \<in> set seg" and hi_in: "hi \<in> set seg"
    using ne lo hi by (auto intro: Min_in Max_in)
  have range: "lo \<le> v \<and> v \<le> hi" if "v \<in> set seg" for v
    using that lo hi by auto
  note len = assms(3)
  show ?thesis
  proof
    assume all: "\<forall>v\<in>set seg. 0 \<le> v \<and> v < int (length p)"
    have "0 \<le> lo \<and> lo < int (length p)" using all lo_in by (rule bspec)
    moreover have "0 \<le> hi \<and> hi < int (length p)" using all hi_in by (rule bspec)
    ultimately show "lo = 0" using len by linarith
  next
    assume z: "lo = 0"
    show "\<forall>v\<in>set seg. 0 \<le> v \<and> v < int (length p)"
    proof
      fix v assume "v \<in> set seg"
      then have "lo \<le> v \<and> v \<le> hi" by (rule range)
      then show "0 \<le> v \<and> v < int (length p)" using z len by linarith
    qed
  qed
qed




lemma int64_id: "- (2 ^ 63) \<le> x \<Longrightarrow> x < 2 ^ 63 \<Longrightarrow> int64 x = x"
  by (simp add: int64_def)

lemma int64_diff_left: "int64 (int64 a - b) = int64 (a - b)"
proof -
  have 1: "int64 a - b + 2 ^ 63 = (a + 2 ^ 63) mod 2 ^ 64 - b"
    by (simp add: int64_def)
  have 2: "a - b + 2 ^ 63 = a + 2 ^ 63 - b" by simp
  have "int64 (int64 a - b) = (int64 a - b + 2 ^ 63) mod 2 ^ 64 - 2 ^ 63"
    by (rule int64_def)
  also have "\<dots> = ((a + 2 ^ 63) mod 2 ^ 64 - b) mod 2 ^ 64 - 2 ^ 63"
    by (simp only: 1)
  also have "\<dots> = (a + 2 ^ 63 - b) mod 2 ^ 64 - 2 ^ 63"
    by (simp only: mod_diff_left_eq)
  also have "\<dots> = (a - b + 2 ^ 63) mod 2 ^ 64 - 2 ^ 63"
    by (simp only: 2)
  also have "\<dots> = int64 (a - b)"
    by (rule int64_def [symmetric])
  finally show ?thesis .
qed

lemma int64_high:
  assumes "2 ^ 63 \<le> x" "x \<le> 2 ^ 64"
  shows "int64 x \<le> 0"
proof -
  have "(x + 2 ^ 63) mod 2 ^ 64 = (x + 2 ^ 63 - 2 ^ 64) mod 2 ^ 64"
    by (rule minus_mod_self2 [symmetric])
  also have "\<dots> = x + 2 ^ 63 - 2 ^ 64"
    using assms by (intro mod_pos_pos_trivial) simp_all
  finally have "int64 x = x - 2 ^ 64"
    by (simp add: int64_def)
  then show ?thesis using assms(2) by simp
qed

lemma map_shift_upto: "map (\<lambda>k. lo + k) [0..n - 1] = [lo..lo + n - 1]"
proof (rule nth_equalityI)
  show "length (map (\<lambda>k. lo + k) [0..n - 1]) = length [lo..lo + n - 1]" by simp
next
  fix i assume "i < length (map (\<lambda>k. lo + k) [0..n - 1])"
  then have "int i < n" by simp
  then show "map (\<lambda>k. lo + k) [0..n - 1] ! i = [lo..lo + n - 1] ! i" by simp
qed

lemma np_arange_fits:
  assumes "- (2 ^ 63) \<le> lo" "lo \<le> hi" "hi < 2 ^ 63" "hi - lo + 1 \<le> int cap" "int cap < 2 ^ 63"
  shows "np_arange cap lo (int64 (hi + 1)) = Inr [lo..hi]"
proof -
  let ?n = "hi - lo + 1"
  have eq: "hi + 1 - lo = ?n" by simp
  have "int64 ?n = ?n" using assms by (intro int64_id) linarith+
  then have n: "int64 (int64 (hi + 1) - lo) = ?n"
    by (simp only: int64_diff_left eq)
  have same: "int64 (lo + k) = lo + k" if "k \<in> set [0..?n - 1]" for k
    using that assms by (intro int64_id) auto
  have "map (\<lambda>k. int64 (lo + k)) [0..?n - 1] = map (\<lambda>k. lo + k) [0..?n - 1]"
    using same by (intro map_cong refl)
  also have "\<dots> = [lo..hi]"
    using map_shift_upto [of lo ?n] by simp
  finally have m: "map (\<lambda>k. int64 (lo + k)) [0..?n - 1] = [lo..hi]" .
  have pos: "\<not> ?n \<le> 0" using assms(2) by simp
  have fit: "\<not> int cap < ?n" using assms(4) by simp
  show ?thesis
    unfolding np_arange_def Let_def n using pos fit m by (simp only: if_False)
qed

lemma np_arange_too_long:
  assumes "- (2 ^ 63) \<le> lo" "lo \<le> hi" "hi < 2 ^ 63" "int cap < hi - lo + 1"
  shows "(hi - lo + 1 < 2 ^ 63 \<longrightarrow> np_arange cap lo (int64 (hi + 1)) = Inl ArrayTooLarge) \<and>
         (2 ^ 63 \<le> hi - lo + 1 \<longrightarrow> np_arange cap lo (int64 (hi + 1)) = Inr [])"
proof -
  let ?n = "hi - lo + 1"
  have eq: "hi + 1 - lo = ?n" by simp
  have n: "int64 (int64 (hi + 1) - lo) = int64 ?n"
    by (simp only: int64_diff_left eq)
  have a: "np_arange cap lo (int64 (hi + 1)) = Inl ArrayTooLarge" if lt: "?n < 2 ^ 63"
  proof -
    have "int64 ?n = ?n" using assms lt by (intro int64_id) linarith+
    then have n': "int64 (int64 (hi + 1) - lo) = ?n" using n by simp
    have pos: "\<not> ?n \<le> 0" using assms(2) by simp
    show ?thesis
      unfolding np_arange_def Let_def n' using pos assms(4) by (simp only: if_False if_True)
  qed
  have b: "np_arange cap lo (int64 (hi + 1)) = Inr []" if ge: "2 ^ 63 \<le> ?n"
  proof -
    have "(2::int) ^ 64 = 2 * 2 ^ 63" by simp
    then have "?n \<le> 2 ^ 64" using assms(1,3) by linarith
    then have le: "int64 ?n \<le> 0" using ge by (intro int64_high)
    show ?thesis
      unfolding np_arange_def Let_def n using le by (simp only: if_True)
  qed
  show ?thesis using a b by (intro conjI impI)
qed


lemma shuffle_segment_arange:
  assumes "py_min (py_slice holdout_y (segment_start T numCP i) (segment_stop T numCP i)) = Inr lo"
      and "py_max (py_slice holdout_y (segment_start T numCP i) (segment_stop T numCP i)) = Inr hi"
  shows "np_arange cap lo (int64 (hi + 1)) = Inr labels \<Longrightarrow>
           shuffle_segment rnd cap T numCP holdout_y i =
             for_each (relabel (rnd i labels))
               (py_range (segment_start T numCP i) (segment_stop T numCP i)) holdout_y"
    and "np_arange cap lo (int64 (hi + 1)) = Inl e \<Longrightarrow>
           shuffle_segment rnd cap T numCP holdout_y i = Inl e"
  using assms by (simp_all add: shuffle_segment_def Let_def)

lemmas cell5_defs = change_points_def change_point_rounds_def py_range_def upto.simps
  shuffle_segment_def segment_start_def segment_stop_def py_slice_def slice_end_def
  py_min_def py_max_def relabel_def py_index_def reversing_def np_arange_def int64_def Let_def

text \<open>
  Claim C9, as stated: the label value indexes the permutation array in bounds for every
  \<open>t\<close> of the segment only when the minimum label of the segment is 0. An index from
  \<open>-len\<close> up to \<open>-1\<close> is in bounds for numpy too: the segment \<open>[-1, 1]\<close> has minimum
  \<open>-1\<close>, its array \<open>[-1, 0, 1]\<close> (here drawn reversed) has three entries, the labels
  \<open>-1\<close> and \<open>1\<close> both index it, and the block ends without \<^verbatim>\<open>IndexError\<close>.
\<close>

theorem negative_minimum_counterexample:
  "py_min (py_slice [0, 0, - 1, 1] (segment_start 4 1 1) (segment_stop 4 1 1)) = Inr (- 1) \<and>
   np_arange 10 (- 1) (int64 (1 + 1)) = Inr [- 1, 0, 1] \<and>
   py_index (reversing 1 [- 1, 0, 1]) (- 1) = Inr (- 1) \<and>
   py_index (reversing 1 [- 1, 0, 1]) 1 = Inr 0 \<and>
   shuffle_segment reversing 10 4 1 [0, 0, - 1, 1] 1 = Inr [0, 0, - 1, 0] \<and>
   change_points reversing 10 1 [0, 0, - 1, 1] = Inr [0, 0, - 1, 0]"
  by (simp add: cell5_defs)

text \<open>
  Claim C9, amended. In round \<open>i\<close> of the block, take a segment of 64-bit labels with
  minimum \<open>lo\<close> and maximum \<open>hi\<close>; the permutation array is indexed by the label
  \<open>holdout_y[t]\<close> itself.
  \<^item> If its \<open>hi - lo + 1\<close> entries can be allocated, the array is a permutation of
    \<open>lo, \<dots>, hi\<close> and has that length; the index is in bounds for every \<open>t\<close> of the
    segment exactly when \<open>lo \<le> 0\<close> and \<open>-1 \<le> hi\<close>, and every label is an offset from 0
    up to the length exactly when \<open>lo = 0\<close>; the round ends without error in the first
    case and raises \<^verbatim>\<open>IndexError\<close> otherwise.
  \<^item> If they cannot, the round fails: numpy cannot create the array, or, from \<open>2^63\<close>
    entries on, the 64-bit length has wrapped, the array is empty and the first index
    raises \<^verbatim>\<open>IndexError\<close>.
  So the round is safe when the minimum label of the segment is 0 and the maximum is
  below the number of entries that can be allocated, as for a segment of the labels
  \<open>{0, 1}\<close> that holds a 0; it fails whenever the minimum label is above 0; and it
  raises \<^verbatim>\<open>IndexError\<close> when \<open>hi = 2^63 - 1\<close> and \<open>lo \<le> 0\<close>, where \<open>hi + 1\<close> wraps
  around. The generator is any function that keeps the length of the array it
  permutes; no machine allocates \<open>2^53\<close> entries, below which the length that numpy
  computes in double precision is exact.
\<close>

theorem shuffle_segment_in_bounds:
  assumes "1 \<le> i" and "i \<le> numCP" and "T = int (length holdout_y)"
      and "\<forall>v\<in>set holdout_y. - (2 ^ 63) \<le> v \<and> v < 2 ^ 63"
      and "\<forall>k xs. length (rnd k xs) = length xs"
      and "int cap < 2 ^ 53"
      and "py_min (py_slice holdout_y (segment_start T numCP i) (segment_stop T numCP i)) = Inr lo"
      and "py_max (py_slice holdout_y (segment_start T numCP i) (segment_stop T numCP i)) = Inr hi"
  shows "(hi - lo + 1 \<le> int cap \<longrightarrow>
            np_arange cap lo (int64 (hi + 1)) = Inr [lo..hi] \<and>
            length (rnd i [lo..hi]) = nat (hi - lo + 1) \<and>
            ((\<forall>t\<in>set (py_range (segment_start T numCP i) (segment_stop T numCP i)).
                \<exists>w. py_index (rnd i [lo..hi]) (holdout_y ! nat t) = Inr w)
               \<longleftrightarrow> lo \<le> 0 \<and> - 1 \<le> hi) \<and>
            ((\<forall>t\<in>set (py_range (segment_start T numCP i) (segment_stop T numCP i)).
                0 \<le> holdout_y ! nat t \<and> holdout_y ! nat t < int (length (rnd i [lo..hi])))
               \<longleftrightarrow> lo = 0) \<and>
            (if lo \<le> 0 \<and> - 1 \<le> hi
             then \<exists>ys'. shuffle_segment rnd cap T numCP holdout_y i = Inr ys'
             else shuffle_segment rnd cap T numCP holdout_y i = Inl IndexError)) \<and>
         (int cap < hi - lo + 1 \<longrightarrow>
            (if hi - lo + 1 < 2 ^ 63
             then shuffle_segment rnd cap T numCP holdout_y i = Inl ArrayTooLarge
             else shuffle_segment rnd cap T numCP holdout_y i = Inl IndexError)) \<and>
         ((\<exists>ys'. shuffle_segment rnd cap T numCP holdout_y i = Inr ys')
            \<longleftrightarrow> lo \<le> 0 \<and> - 1 \<le> hi \<and> hi - lo + 1 \<le> int cap) \<and>
         (lo = 0 \<and> hi < int cap \<longrightarrow>
            (\<exists>ys'. shuffle_segment rnd cap T numCP holdout_y i = Inr ys')) \<and>
         (0 < lo \<longrightarrow>
            shuffle_segment rnd cap T numCP holdout_y i = Inl IndexError \<or>
            shuffle_segment rnd cap T numCP holdout_y i = Inl ArrayTooLarge) \<and>
         (lo \<le> 0 \<and> hi = 2 ^ 63 - 1 \<longrightarrow>
            shuffle_segment rnd cap T numCP holdout_y i = Inl IndexError)"
proof -
  let ?a = "segment_start T numCP i" and ?b = "segment_stop T numCP i"
  let ?R = "shuffle_segment rnd cap T numCP holdout_y i"
  let ?seg = "py_slice holdout_y ?a ?b"
  let ?ts = "py_range ?a ?b"
  let ?n = "hi - lo + 1"
  let ?cond = "lo \<le> 0 \<and> - 1 \<le> hi"
  have T: "0 \<le> T" using assms(3) by simp
  have ab: "0 \<le> ?a" "?a \<le> ?b" "?b \<le> int (length holdout_y)"
    using segment_bounds [OF assms(1,2) T] assms(3) by simp_all
  have seg: "?seg = map (\<lambda>t. holdout_y ! nat t) ?ts"
    by (rule py_slice_nth [OF ab])
  have dist: "distinct ?ts" by (simp add: py_range_def)
  have inr: "\<forall>t\<in>set ?ts. 0 \<le> t \<and> t < int (length holdout_y)"
    using ab by (auto simp: py_range_def)
  have ne: "?seg \<noteq> []" and lo: "lo = Min (set ?seg)" and hi: "hi = Max (set ?seg)"
    using py_min_Inr [OF assms(7)] py_max_Inr [OF assms(8)] by auto
  have lo_in: "lo \<in> set ?seg" and hi_in: "hi \<in> set ?seg"
    using ne lo hi by (auto intro: Min_in Max_in)
  have lohi: "lo \<le> hi" using lo hi ne by (simp add: Min_le_iff)
  have sub: "set ?seg \<subseteq> set holdout_y"
    unfolding seg using inr by auto
  have lo64: "- (2 ^ 63) \<le> lo" using assms(4) sub lo_in by blast
  have hi64: "hi < 2 ^ 63" using assms(4) sub hi_in by blast
  have cap: "int cap < 2 ^ 63" using assms(6) by simp
  have ts_ne: "?ts \<noteq> []" using ne seg by auto
  have loop: "if \<forall>t\<in>set ?ts. \<exists>w. py_index p (holdout_y ! nat t) = Inr w
              then \<exists>ys'. for_each (relabel p) ?ts holdout_y = Inr ys'
              else for_each (relabel p) ?ts holdout_y = Inl IndexError" for p
    by (rule relabel_loop [OF dist inr])
  have fits: "np_arange cap lo (int64 (hi + 1)) = Inr [lo..hi] \<and>
            length (rnd i [lo..hi]) = nat ?n \<and>
            ((\<forall>t\<in>set ?ts. \<exists>w. py_index (rnd i [lo..hi]) (holdout_y ! nat t) = Inr w) \<longleftrightarrow> ?cond) \<and>
            ((\<forall>t\<in>set ?ts. 0 \<le> holdout_y ! nat t \<and>
                 holdout_y ! nat t < int (length (rnd i [lo..hi]))) \<longleftrightarrow> lo = 0) \<and>
            (if ?cond then \<exists>ys'. ?R = Inr ys' else ?R = Inl IndexError)"
    if le: "?n \<le> int cap"
  proof -
    let ?p = "rnd i [lo..hi]"
    have ar: "np_arange cap lo (int64 (hi + 1)) = Inr [lo..hi]"
      by (rule np_arange_fits [OF lo64 lohi hi64 le cap])
    have lenp: "int (length ?p) = ?n" using assms(5) lohi by simp
    have len: "length ?p = nat ?n" using lenp by simp
    have "(\<forall>v\<in>set ?seg. \<exists>w. py_index ?p v = Inr w) \<longleftrightarrow> ?cond"
      by (rule label_indices_in_bounds [OF assms(7,8) lenp])
    moreover have "(\<forall>v\<in>set ?seg. \<exists>w. py_index ?p v = Inr w) \<longleftrightarrow>
        (\<forall>t\<in>set ?ts. \<exists>w. py_index ?p (holdout_y ! nat t) = Inr w)"
      by (subst seg) simp
    ultimately have ok: "(\<forall>t\<in>set ?ts. \<exists>w. py_index ?p (holdout_y ! nat t) = Inr w) \<longleftrightarrow> ?cond"
      by simp
    have "(\<forall>v\<in>set ?seg. 0 \<le> v \<and> v < int (length ?p)) \<longleftrightarrow> lo = 0"
      by (rule label_offsets_nonneg [OF assms(7,8) lenp])
    moreover have "(\<forall>v\<in>set ?seg. 0 \<le> v \<and> v < int (length ?p)) \<longleftrightarrow>
        (\<forall>t\<in>set ?ts. 0 \<le> holdout_y ! nat t \<and> holdout_y ! nat t < int (length ?p))"
      by (subst seg) simp
    ultimately have offs: "(\<forall>t\<in>set ?ts.
        0 \<le> holdout_y ! nat t \<and> holdout_y ! nat t < int (length ?p)) \<longleftrightarrow> lo = 0" by simp
    have unf: "?R = for_each (relabel ?p) ?ts holdout_y"
      by (rule shuffle_segment_arange(1) [OF assms(7,8) ar])
    have res: "if ?cond then \<exists>ys'. ?R = Inr ys' else ?R = Inl IndexError"
      using loop [of ?p] ok unf by simp
    show ?thesis using ar len ok offs res by (intro conjI)
  qed
  have long: "if ?n < 2 ^ 63 then ?R = Inl ArrayTooLarge else ?R = Inl IndexError"
    if gt: "int cap < ?n"
  proof (cases "?n < 2 ^ 63")
    case True
    then have "np_arange cap lo (int64 (hi + 1)) = Inl ArrayTooLarge"
      using np_arange_too_long [OF lo64 lohi hi64 gt] by blast
    then have "?R = Inl ArrayTooLarge"
      by (rule shuffle_segment_arange(2) [OF assms(7,8)])
    with True show ?thesis by simp
  next
    case False
    then have "np_arange cap lo (int64 (hi + 1)) = Inr []"
      using np_arange_too_long [OF lo64 lohi hi64 gt] by simp
    then have unf: "?R = for_each (relabel (rnd i [])) ?ts holdout_y"
      by (rule shuffle_segment_arange(1) [OF assms(7,8)])
    have empty: "rnd i [] = []" using assms(5) by (metis length_0_conv)
    obtain t where t: "t \<in> set ?ts" using ts_ne by (cases ?ts) auto
    have "\<not> (\<exists>w. py_index (rnd i []) (holdout_y ! nat t) = Inr w)"
      by (simp add: empty py_index_Inr_iff)
    then have "\<not> (\<forall>t\<in>set ?ts. \<exists>w. py_index (rnd i []) (holdout_y ! nat t) = Inr w)"
      using t by blast
    then have "for_each (relabel (rnd i [])) ?ts holdout_y = Inl IndexError"
      using loop [of "rnd i []"] by simp
    with False unf show ?thesis by simp
  qed
  have iff: "(\<exists>ys'. ?R = Inr ys') \<longleftrightarrow> ?cond \<and> ?n \<le> int cap"
  proof (cases "?n \<le> int cap")
    case True
    have "if ?cond then \<exists>ys'. ?R = Inr ys' else ?R = Inl IndexError"
      using fits [OF True] by simp
    then show ?thesis using True by (cases ?cond) simp_all
  next
    case False
    then have "int cap < ?n" by simp
    then have "?R = Inl ArrayTooLarge \<or> ?R = Inl IndexError"
      using long by (cases "?n < 2 ^ 63") simp_all
    then show ?thesis using False by auto
  qed
  have zero: "lo = 0 \<and> hi < int cap \<longrightarrow> (\<exists>ys'. ?R = Inr ys')"
    using iff lohi by simp
  have pos: "0 < lo \<longrightarrow> ?R = Inl IndexError \<or> ?R = Inl ArrayTooLarge"
  proof
    assume p: "0 < lo"
    show "?R = Inl IndexError \<or> ?R = Inl ArrayTooLarge"
    proof (cases "?n \<le> int cap")
      case True
      have "if ?cond then \<exists>ys'. ?R = Inr ys' else ?R = Inl IndexError"
        using fits [OF True] by simp
      then show ?thesis using p by simp
    next
      case False
      then have "int cap < ?n" by simp
      then show ?thesis using long by (cases "?n < 2 ^ 63") simp_all
    qed
  qed
  have wrap: "lo \<le> 0 \<and> hi = 2 ^ 63 - 1 \<longrightarrow> ?R = Inl IndexError"
  proof
    assume w: "lo \<le> 0 \<and> hi = 2 ^ 63 - 1"
    then have big: "\<not> ?n < 2 ^ 63" by simp
    then have "int cap < ?n" using cap by simp
    then show "?R = Inl IndexError" using long big by simp
  qed
  have A: "?n \<le> int cap \<longrightarrow>
            np_arange cap lo (int64 (hi + 1)) = Inr [lo..hi] \<and>
            length (rnd i [lo..hi]) = nat ?n \<and>
            ((\<forall>t\<in>set ?ts. \<exists>w. py_index (rnd i [lo..hi]) (holdout_y ! nat t) = Inr w) \<longleftrightarrow> ?cond) \<and>
            ((\<forall>t\<in>set ?ts. 0 \<le> holdout_y ! nat t \<and>
                 holdout_y ! nat t < int (length (rnd i [lo..hi]))) \<longleftrightarrow> lo = 0) \<and>
            (if ?cond then \<exists>ys'. ?R = Inr ys' else ?R = Inl IndexError)"
    using fits by (rule impI)
  have B: "int cap < ?n \<longrightarrow>
      (if ?n < 2 ^ 63 then ?R = Inl ArrayTooLarge else ?R = Inl IndexError)"
    using long by (rule impI)
  have iff': "(\<exists>ys'. ?R = Inr ys') \<longleftrightarrow> lo \<le> 0 \<and> - 1 \<le> hi \<and> ?n \<le> int cap"
    using iff by (simp only: conj_assoc)
  show ?thesis using A B iff' zero pos wrap by (intro conjI)
qed

theorem shuffle_segment_in_bounds_witness:
  "(1::int) \<le> 1 \<and> (4::int) = int (length [0, 1, 0, 1 :: int]) \<and>
   (\<forall>k xs. length (reversing k xs) = length xs) \<and> int 10 < 2 ^ 53 \<and>
   py_min (py_slice [0, 1, 0, 1] (segment_start 4 1 1) (segment_stop 4 1 1)) = Inr 0 \<and>
   py_max (py_slice [0, 1, 0, 1] (segment_start 4 1 1) (segment_stop 4 1 1)) = Inr 1 \<and>
   (\<exists>ys'. shuffle_segment reversing 10 4 1 [0, 1, 0, 1] 1 = Inr ys') \<and>
   py_min (py_slice [0, 0, 1, 1] (segment_start 4 1 1) (segment_stop 4 1 1)) = Inr 1 \<and>
   py_max (py_slice [0, 0, 1, 1] (segment_start 4 1 1) (segment_stop 4 1 1)) = Inr 1 \<and>
   shuffle_segment reversing 10 4 1 [0, 0, 1, 1] 1 = Inl IndexError \<and>
   py_min (py_slice [0, 0, 0, 9223372036854775807] (segment_start 4 1 1) (segment_stop 4 1 1))
     = Inr 0 \<and>
   py_max (py_slice [0, 0, 0, 9223372036854775807] (segment_start 4 1 1) (segment_stop 4 1 1))
     = Inr (2 ^ 63 - 1) \<and>
   shuffle_segment reversing 10 4 1 [0, 0, 0, 9223372036854775807] 1 = Inl IndexError \<and>
   py_max (py_slice [0, 0, 0, 40] (segment_start 4 1 1) (segment_stop 4 1 1)) = Inr 40 \<and>
   shuffle_segment reversing 10 4 1 [0, 0, 0, 40] 1 = Inl ArrayTooLarge"
proof -
  have h1: "(1::int) \<le> 1" by simp
  have h3: "(4::int) = int (length [0, 1, 0, 1 :: int])" by simp
  have h4: "\<forall>v\<in>set [0, 1, 0, 1 :: int]. - (2 ^ 63) \<le> v \<and> v < 2 ^ 63" by simp
  have h5: "\<forall>k xs. length (reversing k xs) = length xs" by (simp add: reversing_def)
  have h6: "int 10 < 2 ^ 53" by simp
  have h7: "py_min (py_slice [0, 1, 0, 1] (segment_start 4 1 1) (segment_stop 4 1 1)) = Inr 0"
    by (simp add: cell5_defs)
  have h8: "py_max (py_slice [0, 1, 0, 1] (segment_start 4 1 1) (segment_stop 4 1 1)) = Inr 1"
    by (simp add: cell5_defs)
  have k3: "(4::int) = int (length [0, 0, 1, 1 :: int])" by simp
  have k4: "\<forall>v\<in>set [0, 0, 1, 1 :: int]. - (2 ^ 63) \<le> v \<and> v < 2 ^ 63" by simp
  have k7: "py_min (py_slice [0, 0, 1, 1] (segment_start 4 1 1) (segment_stop 4 1 1)) = Inr 1"
    by (simp add: cell5_defs)
  have k8: "py_max (py_slice [0, 0, 1, 1] (segment_start 4 1 1) (segment_stop 4 1 1)) = Inr 1"
    by (simp add: cell5_defs)
  have w3: "(4::int) = int (length [0, 0, 0, 9223372036854775807 :: int])" by simp
  have w4: "\<forall>v\<in>set [0, 0, 0, 9223372036854775807 :: int]. - (2 ^ 63) \<le> v \<and> v < 2 ^ 63"
    by simp
  have w7: "py_min (py_slice [0, 0, 0, 9223372036854775807] (segment_start 4 1 1)
      (segment_stop 4 1 1)) = Inr 0"
    by (simp add: cell5_defs)
  have w8: "py_max (py_slice [0, 0, 0, 9223372036854775807] (segment_start 4 1 1)
      (segment_stop 4 1 1)) = Inr (2 ^ 63 - 1)"
    by (simp add: cell5_defs)
  have m3: "(4::int) = int (length [0, 0, 0, 40 :: int])" by simp
  have m4: "\<forall>v\<in>set [0, 0, 0, 40 :: int]. - (2 ^ 63) \<le> v \<and> v < 2 ^ 63" by simp
  have m7: "py_min (py_slice [0, 0, 0, 40] (segment_start 4 1 1) (segment_stop 4 1 1)) = Inr 0"
    by (simp add: cell5_defs)
  have m8: "py_max (py_slice [0, 0, 0, 40] (segment_start 4 1 1) (segment_stop 4 1 1)) = Inr 40"
    by (simp add: cell5_defs)
  have a: "\<exists>ys'. shuffle_segment reversing 10 4 1 [0, 1, 0, 1] 1 = Inr ys'"
    using shuffle_segment_in_bounds [OF h1 h1 h3 h4 h5 h6 h7 h8] by simp
  have b: "shuffle_segment reversing 10 4 1 [0, 0, 1, 1] 1 = Inl IndexError"
    using shuffle_segment_in_bounds [OF h1 h1 k3 k4 h5 h6 k7 k8] by simp
  have c: "shuffle_segment reversing 10 4 1 [0, 0, 0, 9223372036854775807] 1 = Inl IndexError"
    using shuffle_segment_in_bounds [OF h1 h1 w3 w4 h5 h6 w7 w8] by simp
  have d: "shuffle_segment reversing 10 4 1 [0, 0, 0, 40] 1 = Inl ArrayTooLarge"
    using shuffle_segment_in_bounds [OF h1 h1 m3 m4 h5 h6 m7 m8] by simp
  show ?thesis using h1 h3 h5 h6 h7 h8 k7 k8 w7 w8 m8 a b c d by (intro conjI)
qed

section \<open>Properties of the controller\<close>



lemma phase_seed:
  "phase (seed D c b bs) =
     Seeded (est_fit (base_estimator c) (b # bs))
       \<lparr>round_index = first_round (convention D) (length (b # bs)),
        predictions_made = 0, errors_made = 0,
        threshold = initial_threshold D (target_error c)\<rparr>"
  by (simp add: seed_def)

lemma base_estimator_seed: "base_estimator (seed D c b bs) = base_estimator c"
  by (simp add: seed_def)

text \<open>
  Claim C4 (seeding precondition). \<open>decide\<close> on an unseeded controller, a freshly
  constructed one in particular, fails with \<open>NotSeededError\<close>. After \<open>seed\<close> on a
  non-empty batch of size \<open>k\<close> the round counter is 0 or \<open>k\<close>, as the convention of the
  design has it, with no prediction and no error counted; the first \<open>decide\<close> does not
  fail with \<open>NotSeededError\<close>, and with a base estimator that answers the query it
  succeeds and leaves the round counter one above its starting value.
\<close>

theorem seeding_precondition:
  "(phase c0 = Unseeded \<longrightarrow> decide D c0 x y_true = Inl NotSeededError) \<and>
   (safePredict D eps fac g = Inr c0 \<longrightarrow> decide D c0 x y_true = Inl NotSeededError) \<and>
   (\<exists>m s. phase (seed D c b bs) = Seeded m s \<and>
      round_index s = first_round (convention D) (length (b # bs)) \<and>
      round_index s \<in> {0, length (b # bs)} \<and>
      predictions_made s = 0 \<and> errors_made s = 0) \<and>
   decide D (seed D c b bs) x y_true \<noteq> Inl NotSeededError \<and>
   (est_predict (base_estimator c) (est_fit (base_estimator c) (b # bs)) x \<noteq> None \<longrightarrow>
      (\<exists>d c' m' s'. decide D (seed D c b bs) x y_true = Inr (d, c') \<and>
         phase c' = Seeded m' s' \<and>
         round_index s' = first_round (convention D) (length (b # bs)) + 1))"
proof -
  have a: "phase c0 = Unseeded \<longrightarrow> decide D c0 x y_true = Inl NotSeededError"
    by (simp add: decide_def)
  have b: "safePredict D eps fac g = Inr c0 \<longrightarrow> decide D c0 x y_true = Inl NotSeededError"
    by (auto simp: safePredict_def decide_def split: if_splits option.splits factory.splits)
  have c: "\<exists>m s. phase (seed D c b bs) = Seeded m s \<and>
      round_index s = first_round (convention D) (length (b # bs)) \<and>
      round_index s \<in> {0, length (b # bs)} \<and>
      predictions_made s = 0 \<and> errors_made s = 0"
    by (cases "convention D") (simp_all add: phase_seed first_round_def)
  have d: "decide D (seed D c b bs) x y_true \<noteq> Inl NotSeededError"
    by (simp add: decide_def phase_seed Let_def split: option.splits)
  have e: "est_predict (base_estimator c) (est_fit (base_estimator c) (b # bs)) x \<noteq> None \<longrightarrow>
      (\<exists>d c' m' s'. decide D (seed D c b bs) x y_true = Inr (d, c') \<and>
         phase c' = Seeded m' s' \<and>
         round_index s' = first_round (convention D) (length (b # bs)) + 1)"
  proof
    assume "est_predict (base_estimator c) (est_fit (base_estimator c) (b # bs)) x \<noteq> None"
    then obtain y_hat where
      "est_predict (base_estimator (seed D c b bs)) (est_fit (base_estimator c) (b # bs)) x
         = Some y_hat"
      by (auto simp: base_estimator_seed)
    from decide_seeded [OF phase_seed this, of D y_true]
    show "\<exists>d c' m' s'. decide D (seed D c b bs) x y_true = Inr (d, c') \<and>
         phase c' = Seeded m' s' \<and>
         round_index s' = first_round (convention D) (length (b # bs)) + 1"
      by auto
  qed
  show ?thesis using a b c d e by (intro conjI)
qed

theorem seeding_precondition_witness:
  "phase demo_controller = Unseeded \<and>
   safePredict stub_design (1 / 20) None 0 = Inr demo_controller \<and>
   decide stub_design demo_controller () 1 = Inl NotSeededError \<and>
   est_predict (base_estimator demo_controller)
     (est_fit (base_estimator demo_controller) [((), 1)]) () \<noteq> None \<and>
   (\<exists>d c' m' s'. decide stub_design (seed stub_design demo_controller ((), 1) []) () 1 = Inr (d, c') \<and>
      phase c' = Seeded m' s' \<and>
      round_index s' = first_round (convention stub_design) (length [((), 1 :: int)]) + 1)"
proof -
  have h1: "phase demo_controller = Unseeded" by (simp add: demo_controller_def)
  have h2: "safePredict stub_design (1 / 20) None 0 = Inr demo_controller"
    by (simp add: safePredict_def demo_controller_def stub_design_def)
  have h3: "est_predict (base_estimator demo_controller)
     (est_fit (base_estimator demo_controller) [((), 1)]) () \<noteq> None"
    by (simp add: demo_controller_def stub_estimator_def)
  note t = seeding_precondition [where ?c0.0 = demo_controller and D = stub_design
        and eps = "1 / 20" and fac = None and g = 0
        and x = "()" and y_true = 1 and c = demo_controller and b = "((), 1)" and bs = "[]"]
  have a: "decide stub_design demo_controller () 1 = Inl NotSeededError"
    using t h1 by blast
  have b: "\<exists>d c' m' s'. decide stub_design (seed stub_design demo_controller ((), 1) []) () 1 = Inr (d, c') \<and>
      phase c' = Seeded m' s' \<and>
      round_index s' = first_round (convention stub_design) (length [((), 1 :: int)]) + 1"
    using t h3 by blast
  show ?thesis using h1 h2 h3 a b by (intro conjI)
qed

end
